theory Spec2Isabelle
  imports Main "HOL-Library.Product_Lexorder" "HOL-Library.Multiset"
begin

section \<open>Record store (scrape\_nsa2.py: init\_db, insert\_into\_db)\<close>

text \<open>
  The table \<^verbatim>\<open>ACLU\<close> of \<^verbatim>\<open>init_db\<close>: one record per row, the columns under the names
  of the \<^verbatim>\<open>CREATE TABLE\<close> statement, and SQLite's implicit \<^verbatim>\<open>rowid\<close>. Every column but
  \<^verbatim>\<open>Page\<close> is nullable. A table is the list of its rows in ascending \<^verbatim>\<open>rowid\<close>.
\<close>

record row =
  rowid :: nat
  Page :: string
  Document_Date :: "string option"
  DirectPDF_Link :: "string option"
  Duplicate :: "string option"
  Year_From_URL :: "int option"

text \<open>
  A connection: the rows as the connection sees them (\<open>tbl\<close>, with the writes of a
  transaction that is still open) and the rows of the last successful commit
  (\<open>durable\<close>), which is what another connection reads from the database file.
\<close>

record conn =
  tbl :: "row list"
  durable :: "row list"

text \<open>\<^verbatim>\<open>init_db\<close> on a database file that does not exist yet: an empty table.\<close>

definition init_db :: conn where
  "init_db = \<lparr>tbl = [], durable = []\<rparr>"

text \<open>
  The three statements inside the \<^verbatim>\<open>try\<close> of \<^verbatim>\<open>insert_into_db\<close> can each raise
  (\<^verbatim>\<open>sqlite3.Error\<close>); which one does, if any, is given from outside. The call
  \<^verbatim>\<open>conn.cursor()\<close> stands before the \<^verbatim>\<open>try\<close>; on the open connection of a run it
  returns, and it is not among the faults.
\<close>

datatype db_fault = NoFault | SelectFails | InsertFails | CommitFails

datatype py_exc = SqliteError | RequestError | HTTPError | ValueError

datatype db_log = Saved int string | Insert_Failed py_exc

text \<open>\<^verbatim>\<open>SELECT 1 FROM ACLU WHERE Page = ?\<close> followed by \<^verbatim>\<open>fetchone()\<close>: is there a row?\<close>

definition select_page :: "row list \<Rightarrow> string \<Rightarrow> bool" where
  "select_page t k = (filter (\<lambda>r. Page r = k) t \<noteq> [])"

text \<open>SQLite gives a new row the largest \<^verbatim>\<open>rowid\<close> in the table plus one (1 in an empty table).\<close>

definition new_rowid :: "row list \<Rightarrow> nat" where
  "new_rowid t = Suc (fold max (map rowid t) 0)"

text \<open>
  \<^verbatim>\<open>INSERT OR REPLACE INTO ACLU (Page, Document_Date, DirectPDF_Link, Duplicate, Year_From_URL)\<close>:
  the rows that conflict on the primary key \<^verbatim>\<open>Page\<close> are deleted and the new row is added.
\<close>

definition insert_or_replace ::
  "row list \<Rightarrow> string \<Rightarrow> string \<Rightarrow> string \<Rightarrow> string \<Rightarrow> int \<Rightarrow> row list" where
  "insert_or_replace t page_url doc_date pdf_url duplicate year_from_url =
     filter (\<lambda>r. Page r \<noteq> page_url) t @
       [\<lparr>rowid = new_rowid t, Page = page_url, Document_Date = Some doc_date,
         DirectPDF_Link = Some pdf_url, Duplicate = Some duplicate,
         Year_From_URL = Some year_from_url\<rparr>]"

text \<open>
  The body of the \<^verbatim>\<open>try\<close>: the connection afterwards, and either the exception raised
  or the value of \<^verbatim>\<open>duplicate\<close>. A failed commit leaves the written row in the open
  transaction (the code issues no rollback).
\<close>

definition insert_try ::
  "db_fault \<Rightarrow> conn \<Rightarrow> string \<Rightarrow> string \<Rightarrow> string \<Rightarrow> int \<Rightarrow> conn \<times> (py_exc + string)" where
  "insert_try f c page_url doc_date pdf_url year_from_url =
     (if f = SelectFails then (c, Inl SqliteError)
      else
        let exists = select_page (tbl c) page_url;
            duplicate = (if exists then ''Yes'' else ''No'')
        in if f = InsertFails then (c, Inl SqliteError)
           else
             let c1 = c\<lparr>tbl := insert_or_replace (tbl c) page_url doc_date pdf_url
                                  duplicate year_from_url\<rparr>
             in if f = CommitFails then (c1, Inl SqliteError)
                else (c1\<lparr>durable := tbl c1\<rparr>, Inr duplicate))"

text \<open>
  \<^verbatim>\<open>insert_into_db\<close>: the \<^verbatim>\<open>try\<close> with its handler \<^verbatim>\<open>except Exception\<close>, which prints and
  returns. \<open>Inl\<close> would be an exception that leaves the function.
\<close>

definition insert_into_db ::
  "db_fault \<Rightarrow> conn \<Rightarrow> string \<Rightarrow> string \<Rightarrow> string \<Rightarrow> int \<Rightarrow> py_exc + conn \<times> db_log" where
  "insert_into_db f c page_url doc_date pdf_url year_from_url =
     (case insert_try f c page_url doc_date pdf_url year_from_url of
        (c', Inr duplicate) \<Rightarrow> Inr (c', Saved year_from_url duplicate)
      | (c', Inl e) \<Rightarrow> Inr (c', Insert_Failed e))"

text \<open>A sequence of upsert calls \<open>(page_url, doc_date, pdf_url, year)\<close>, none of which fails.\<close>

type_synonym upsert_call = "string \<times> string \<times> string \<times> int"

fun run_upserts :: "conn \<Rightarrow> upsert_call list \<Rightarrow> conn" where
  "run_upserts c [] = c"
| "run_upserts c ((k, d, p, y) # cs) =
     (case insert_into_db NoFault c k d p y of
        Inr (c', _) \<Rightarrow> run_upserts c' cs
      | Inl _ \<Rightarrow> c)"

definition rows_for :: "string \<Rightarrow> row list \<Rightarrow> row list" where
  "rows_for k t = filter (\<lambda>r. Page r = k) t"

definition payload :: "row \<Rightarrow> string option \<times> string option \<times> int option \<times> string option" where
  "payload r = (Document_Date r, DirectPDF_Link r, Year_From_URL r, Duplicate r)"


section \<open>Python strings\<close>

text \<open>
  Strings are lists of characters. The character classes are the ASCII ones: Python's
  \<^verbatim>\<open>str.isspace\<close>, \<^verbatim>\<open>\d\<close> and \<^verbatim>\<open>\w\<close> also accept code points beyond ASCII, which
  this development does not cover.
\<close>


definition is_space :: "char \<Rightarrow> bool" where
  "is_space c = (c \<in> set [CHR 0x09, CHR 0x0A, CHR 0x0B, CHR 0x0C, CHR 0x0D,
                            CHR 0x1C, CHR 0x1D, CHR 0x1E, CHR 0x1F, CHR 0x20])"

definition is_digit :: "char \<Rightarrow> bool" where
  "is_digit c = (c \<in> set ''0123456789'')"

definition is_alpha :: "char \<Rightarrow> bool" where
  "is_alpha c = (c \<in> set ''abcdefghijklmnopqrstuvwxyzABCDEFGHIJKLMNOPQRSTUVWXYZ'')"


definition digit_val :: "char \<Rightarrow> nat" where
  "digit_val c = of_char c - 48"

definition strip :: "string \<Rightarrow> string" where
  "strip s = rev (dropWhile is_space (rev (dropWhile is_space s)))"

definition rstrip_char :: "char \<Rightarrow> string \<Rightarrow> string" where
  "rstrip_char c s = rev (dropWhile (\<lambda>x. x = c) (rev s))"

definition startswith :: "string \<Rightarrow> string \<Rightarrow> bool" where
  "startswith s p = (take (length p) s = p)"

fun py_in :: "string \<Rightarrow> string \<Rightarrow> bool" where
  "py_in sub [] = (sub = [])"
| "py_in sub (c # cs) = (startswith (c # cs) sub \<or> py_in sub cs)"



fun split_first :: "char \<Rightarrow> string \<Rightarrow> string \<times> string option" where
  "split_first c s =
     (if c \<in> set s then (takeWhile (\<lambda>x. x \<noteq> c) s, Some (tl (dropWhile (\<lambda>x. x \<noteq> c) s)))
      else (s, None))"

fun split_on :: "char \<Rightarrow> string \<Rightarrow> string list" where
  "split_on c [] = [[]]"
| "split_on c (x # xs) =
     (case split_on c xs of
        [] \<Rightarrow> [[x]]
      | p # ps \<Rightarrow> if x = c then [] # p # ps else (x # p) # ps)"

fun digits_acc :: "nat \<Rightarrow> string \<Rightarrow> nat option" where
  "digits_acc acc [] = Some acc"
| "digits_acc acc [c] = (if is_digit c then Some (10 * acc + digit_val c) else None)"
| "digits_acc acc (c # d # ds) =
     (if is_digit c then digits_acc (10 * acc + digit_val c) (d # ds)
      else if c = CHR ''_'' \<and> is_digit d then digits_acc (10 * acc + digit_val d) ds
      else None)"

definition digits_nat :: "string \<Rightarrow> nat option" where
  "digits_nat s = (case s of [] \<Rightarrow> None | c # cs \<Rightarrow> if is_digit c then digits_acc (digit_val c) cs else None)"

definition py_int :: "string \<Rightarrow> int option" where
  "py_int s =
     (case strip s of
        [] \<Rightarrow> None
      | c # cs \<Rightarrow>
          if c = CHR ''-'' then map_option (\<lambda>n. - int n) (digits_nat cs)
          else if c = CHR ''+'' then map_option int (digits_nat cs)
          else map_option int (digits_nat (c # cs)))"

fun str_nat :: "nat \<Rightarrow> string" where
  "str_nat n = (if n < 10 then [''0123456789'' ! n] else str_nat (n div 10) @ [''0123456789'' ! (n mod 10)])"

declare str_nat.simps [simp del]

definition str_int :: "int \<Rightarrow> string" where
  "str_int i = (if i < 0 then CHR ''-'' # str_nat (nat (- i)) else str_nat (nat i))"


section \<open>Parsed pages (the part of BeautifulSoup the scraper uses)\<close>

text \<open>
  A parsed page is a tree of tags and strings. A tag has its name, the list of its
  classes (BeautifulSoup splits the \<^verbatim>\<open>class\<close> attribute into a list, empty when the tag has
  none), its other attributes and its contents. The root of a page is a tag as well.
\<close>

datatype node = NavigableString string | Tag string "string list" "(string \<times> string) list" "node list"

fun descendants :: "node \<Rightarrow> node list" where
  "descendants (NavigableString s) = []"
| "descendants (Tag n cl at ch) = concat (map (\<lambda>k. k # descendants k) ch)"

definition is_tag :: "string \<Rightarrow> node \<Rightarrow> bool" where
  "is_tag name n = (case n of NavigableString s \<Rightarrow> False | Tag m cl at ch \<Rightarrow> m = name)"

definition classes :: "node \<Rightarrow> string list" where
  "classes n = (case n of NavigableString s \<Rightarrow> [] | Tag m cl at ch \<Rightarrow> cl)"

text \<open>\<^verbatim>\<open>tag.get(key)\<close> for an attribute other than \<^verbatim>\<open>class\<close>.\<close>

definition tag_get :: "node \<Rightarrow> string \<Rightarrow> string option" where
  "tag_get n key = (case n of NavigableString s \<Rightarrow> None | Tag m cl at ch \<Rightarrow> map_of at key)"

text \<open>Python's truth value of \<^verbatim>\<open>tag.get(key)\<close>: the attribute is there and not empty.\<close>

definition truthy :: "string option \<Rightarrow> bool" where
  "truthy v = (case v of None \<Rightarrow> False | Some s \<Rightarrow> s \<noteq> [])"

text \<open>\<^verbatim>\<open>find(name, class_=c)\<close>: the first descendant tag, in document order, of that name with that class.\<close>

definition find_class :: "node \<Rightarrow> string \<Rightarrow> string \<Rightarrow> node option" where
  "find_class soup name c = List.find (\<lambda>d. is_tag name d \<and> c \<in> set (classes d)) (descendants soup)"

text \<open>\<^verbatim>\<open>select\<close> with a selector \<^verbatim>\<open>name.c\<close> (or a list of them): every descendant that matches, in document order.\<close>

definition select_class :: "node \<Rightarrow> string list \<Rightarrow> string \<Rightarrow> node list" where
  "select_class soup names c =
     filter (\<lambda>d. list_ex (\<lambda>name. is_tag name d) names \<and> c \<in> set (classes d)) (descendants soup)"

text \<open>The strings below a node, in document order; \<^verbatim>\<open>get_text()\<close> and \<^verbatim>\<open>get_text(strip=True)\<close>.\<close>

fun strings_of :: "node \<Rightarrow> string list" where
  "strings_of (NavigableString s) = [s]"
| "strings_of (Tag n cl at ch) = concat (map strings_of ch)"


definition get_text_strip :: "node \<Rightarrow> string" where
  "get_text_strip n = concat (filter (\<lambda>s. s \<noteq> []) (map strip (strings_of n)))"



text \<open>
  \<^verbatim>\<open>tag.string\<close>: the string of a tag whose only child is a string, or whose only child is
  a tag that has a \<^verbatim>\<open>.string\<close>; \<^verbatim>\<open>None\<close> otherwise.
\<close>

fun tag_string :: "node \<Rightarrow> string option" where
  "tag_string (NavigableString s) = Some s"
| "tag_string (Tag n cl at [k]) = tag_string k"
| "tag_string (Tag n cl at ch) = None"


section \<open>The library calls whose results come from outside\<close>

text \<open>
  \<^verbatim>\<open>requests.get\<close> either raises or returns a response; of a response the scraper reads
  the status code and the text, which it hands to the HTML parser at once, so a response
  carries the parsed page.
\<close>

datatype http_result = Raises py_exc | Response nat node

text \<open>
  The environment of a run: \<^verbatim>\<open>urllib.parse.urljoin\<close> (taken as given), the answer of the
  site to a GET of a URL (the same whenever the URL is asked for), and the fault of the
  n-th call of \<^verbatim>\<open>insert_into_db\<close>.
\<close>

record env =
  urljoin :: "string \<Rightarrow> string \<Rightarrow> string"
  http_get :: "string \<Rightarrow> http_result"
  db_faults :: "nat \<Rightarrow> db_fault"

definition ACLU :: string where
  "ACLU = ''https://www.aclu.org''"


section \<open>Listing parser (scrape\_nsa2.py: get\_detail\_pages\_from\_listing)\<close>

record item =
  detail_url :: string
  title :: string
  doc_date :: string






section \<open>Detail resolver (scrape\_nsa2.py: get\_direct\_pdf\_url)\<close>

text \<open>\<^verbatim>\<open>soup.find('a', download=True)\<close>: the first anchor that has a \<^verbatim>\<open>download\<close> attribute.\<close>

definition find_download :: "node \<Rightarrow> node option" where
  "find_download soup = List.find (\<lambda>d. is_tag ''a'' d \<and> tag_get d ''download'' \<noteq> None) (descendants soup)"

text \<open>
  \<^verbatim>\<open>soup.find('a', string=lambda x: x and 'Download document' in x)\<close>: the first anchor
  whose \<^verbatim>\<open>.string\<close> is there, not empty, and contains the phrase.
\<close>

definition find_download_text :: "node \<Rightarrow> node option" where
  "find_download_text soup =
     List.find (\<lambda>d. is_tag ''a'' d \<and>
                  (case tag_string d of None \<Rightarrow> False
                   | Some x \<Rightarrow> x \<noteq> [] \<and> py_in ''Download document'' x))
       (descendants soup)"

text \<open>
  \<^verbatim>\<open>soup.find('a', download=True) or soup.find('a', string=...)\<close>: a tag is always true in
  Python, so the second search runs only when the first finds nothing.
\<close>

definition download_anchor :: "node \<Rightarrow> node option" where
  "download_anchor soup = (case find_download soup of Some t \<Rightarrow> Some t | None \<Rightarrow> find_download_text soup)"

text \<open>The body of the \<^verbatim>\<open>try\<close>: an exception, or the value returned (\<open>None\<close> also when the body falls through).\<close>

definition pdf_try :: "env \<Rightarrow> string \<Rightarrow> py_exc + string option" where
  "pdf_try w url =
     (case http_get w url of
        Raises e \<Rightarrow> Inl e
      | Response status_code soup \<Rightarrow>
          if status_code \<noteq> 200 then Inr None
          else
            case download_anchor soup of
              None \<Rightarrow> Inr None
            | Some a \<Rightarrow>
                if truthy (tag_get a ''href'') then Inr (Some (urljoin w ACLU (the (tag_get a ''href''))))
                else Inr None)"

text \<open>The handler \<^verbatim>\<open>except Exception\<close> prints, and the function returns \<^verbatim>\<open>None\<close> after it.\<close>

definition get_direct_pdf_url :: "env \<Rightarrow> string \<Rightarrow> py_exc + string option" where
  "get_direct_pdf_url w url = (case pdf_try w url of Inl e \<Rightarrow> Inr None | Inr r \<Rightarrow> Inr r)"


section \<open>Index generator: year of a path (generate\_local\_index.py: extract\_year\_from\_path)\<close>















section \<open>URLs (the part of urllib.parse the scraper uses)\<close>

text \<open>
  \<^verbatim>\<open>urlparse\<close>, \<^verbatim>\<open>parse_qs\<close>, \<^verbatim>\<open>urlencode\<close>, \<^verbatim>\<open>unquote\<close> on ASCII strings, after the library's
  code. Left out: the removal of control characters and the check of brackets in the
  host that newer versions of the library do first, and the decoding of bytes beyond
  ASCII as UTF-8.
\<close>

record parse_result =
  scheme :: string
  netloc :: string
  path :: string
  params :: string
  query :: string
  fragment :: string

definition lower :: "char \<Rightarrow> char" where
  "lower c = (case map_of (zip ''ABCDEFGHIJKLMNOPQRSTUVWXYZ'' ''abcdefghijklmnopqrstuvwxyz'') c of
                Some l \<Rightarrow> l | None \<Rightarrow> c)"

definition scheme_chars :: string where
  "scheme_chars = ''abcdefghijklmnopqrstuvwxyzABCDEFGHIJKLMNOPQRSTUVWXYZ0123456789+-.''"

definition uses_params :: "string list" where
  "uses_params = ['''', ''ftp'', ''hdl'', ''prospero'', ''http'', ''imap'', ''https'', ''shttp'',
                  ''rtsp'', ''rtspu'', ''sip'', ''sips'', ''mms'', ''sftp'', ''tel'']"

definition rfind_from :: "char \<Rightarrow> string \<Rightarrow> nat" where
  "rfind_from c s = length s - length (takeWhile (\<lambda>x. x \<noteq> c) (rev s)) - 1"

text \<open>\<^verbatim>\<open>_splitparams\<close>: the parameters of the last path segment.\<close>

definition splitparams :: "string \<Rightarrow> string \<times> string" where
  "splitparams url =
     (let start = (if CHR ''/'' \<in> set url then rfind_from CHR ''/'' url else 0);
          tail = drop start url
      in if CHR '';'' \<in> set tail
         then (take start url @ takeWhile (\<lambda>x. x \<noteq> CHR '';'') tail,
               tl (dropWhile (\<lambda>x. x \<noteq> CHR '';'') tail))
         else (url, []))"

definition urlparse :: "string \<Rightarrow> parse_result" where
  "urlparse url0 =
     (let (scheme, url1) =
            (case split_first CHR '':'' url0 of
               (pre, Some post) \<Rightarrow>
                 if pre \<noteq> [] \<and> is_alpha (hd pre) \<and> list_all (\<lambda>c. c \<in> set scheme_chars) pre
                 then (map lower pre, post) else ([], url0)
             | (pre, None) \<Rightarrow> ([], url0));
          (netloc, url2) =
            (if startswith url1 ''//''
             then (takeWhile (\<lambda>c. c \<notin> set ''/?#'') (drop 2 url1),
                   dropWhile (\<lambda>c. c \<notin> set ''/?#'') (drop 2 url1))
             else ([], url1));
          (url3, fragment) = (case split_first CHR ''#'' url2 of (u, Some f) \<Rightarrow> (u, f) | (u, None) \<Rightarrow> (u, []));
          (url4, query) = (case split_first CHR ''?'' url3 of (u, Some q) \<Rightarrow> (u, q) | (u, None) \<Rightarrow> (u, []));
          (path, params) = (if scheme \<in> set uses_params \<and> CHR '';'' \<in> set url4
                            then splitparams url4 else (url4, []))
      in \<lparr>scheme = scheme, netloc = netloc, path = path, params = params,
          query = query, fragment = fragment\<rparr>)"

definition hex_val :: "char \<Rightarrow> nat option" where
  "hex_val c = map_of (zip ''0123456789abcdefABCDEF''
                 [0, 1, 2, 3, 4, 5, 6, 7, 8, 9, 10, 11, 12, 13, 14, 15, 10, 11, 12, 13, 14, 15]) c"

definition byte_char :: "nat \<Rightarrow> char" where
  "byte_char n = Char (odd n) (odd (n div 2)) (odd (n div 4)) (odd (n div 8))
                      (odd (n div 16)) (odd (n div 32)) (odd (n div 64)) (odd (n div 128))"

fun unquote :: "string \<Rightarrow> string" where
  "unquote [] = []"
| "unquote [c] = [c]"
| "unquote [c, d] = [c, d]"
| "unquote (c # h1 # h2 # rest) =
     (if c = CHR ''%'' \<and> hex_val h1 \<noteq> None \<and> hex_val h2 \<noteq> None
      then byte_char (16 * the (hex_val h1) + the (hex_val h2)) # unquote rest
      else c # unquote (h1 # h2 # rest))"

definition always_safe :: string where
  "always_safe = ''ABCDEFGHIJKLMNOPQRSTUVWXYZabcdefghijklmnopqrstuvwxyz0123456789_.-~''"

definition quote_plus :: "string \<Rightarrow> string" where
  "quote_plus s =
     concat (map (\<lambda>c. if c = CHR '' '' then ''+''
                       else if c \<in> set always_safe then [c]
                       else [CHR ''%'', ''0123456789ABCDEF'' ! (of_char c div 16),
                             ''0123456789ABCDEF'' ! (of_char c mod 16)]) s)"

text \<open>A Python dictionary from names to lists of values, in insertion order.\<close>

fun dict_append :: "(string \<times> string list) list \<Rightarrow> string \<Rightarrow> string \<Rightarrow> (string \<times> string list) list" where
  "dict_append [] name v = [(name, [v])]"
| "dict_append ((k, vs) # d) name v =
     (if k = name then (k, vs @ [v]) # d else (k, vs) # dict_append d name v)"

text \<open>\<^verbatim>\<open>parse_qs\<close> with its defaults: fields without \<^verbatim>\<open>=\<close> and fields with a blank value are dropped.\<close>

definition plus_to_space :: "string \<Rightarrow> string" where
  "plus_to_space s = map (\<lambda>c. if c = CHR ''+'' then CHR '' '' else c) s"

fun parse_qs_loop :: "string list \<Rightarrow> (string \<times> string list) list \<Rightarrow> (string \<times> string list) list" where
  "parse_qs_loop [] d = d"
| "parse_qs_loop (name_value # pairs) d =
     (case split_first CHR ''='' name_value of
        (n, None) \<Rightarrow> parse_qs_loop pairs d
      | (n, Some v) \<Rightarrow>
          if v \<noteq> [] then parse_qs_loop pairs
                 (dict_append d (unquote (plus_to_space n)) (unquote (plus_to_space v)))
          else parse_qs_loop pairs d)"

definition parse_qs :: "string \<Rightarrow> (string \<times> string list) list" where
  "parse_qs qs = (if qs = [] then [] else parse_qs_loop (split_on CHR ''&'' qs) [])"

fun join_with :: "string \<Rightarrow> string list \<Rightarrow> string" where
  "join_with sep [] = []"
| "join_with sep [x] = x"
| "join_with sep (x # y # ys) = x @ sep @ join_with sep (y # ys)"

text \<open>\<^verbatim>\<open>urlencode(query, doseq=True)\<close>\<close>

definition urlencode :: "(string \<times> string list) list \<Rightarrow> string" where
  "urlencode d =
     join_with ''&'' (concat (map (\<lambda>(k, vs). map (\<lambda>elt. quote_plus k @ ''='' @ quote_plus elt) vs) d))"


section \<open>Pagination resolver (scrape\_nsa2.py: get\_next\_page\_url)\<close>

text \<open>The loop over the page-number elements, with the variable \<^verbatim>\<open>current_page\<close>; the bare \<^verbatim>\<open>except\<close> skips an element whose text is not a number.\<close>

fun page_number_loop :: "node list \<Rightarrow> int option \<Rightarrow> int option" where
  "page_number_loop [] current_page = current_page"
| "page_number_loop (a # elems) current_page =
     (case py_int (get_text_strip a) of
        None \<Rightarrow> page_number_loop elems current_page
      | Some page_num \<Rightarrow>
          if ''current'' \<in> set (classes a) \<or> is_tag ''span'' a
          then page_number_loop elems (Some page_num)
          else page_number_loop elems current_page)"

definition get_next_page_url :: "env \<Rightarrow> node \<Rightarrow> string \<Rightarrow> string option" where
  "get_next_page_url w soup current_url =
     (let nav = find_class soup ''nav'' ''page-numbers'';
          next_a = (case nav of None \<Rightarrow> None | Some n \<Rightarrow> find_class n ''a'' ''next'')
      in if next_a \<noteq> None \<and> truthy (tag_get (the next_a) ''href'')
         then Some (urljoin w ACLU (the (tag_get (the next_a) ''href'')))
         else
           case page_number_loop (select_class soup [''a'', ''span''] ''page-numbers'') None of
             None \<Rightarrow> None
           | Some current_page \<Rightarrow>
               let parsed = urlparse current_url;
                   query = parse_qs (query parsed);
                   next_page = current_page + 1;
                   new_url = scheme parsed @ ''://'' @ netloc parsed @
                             rstrip_char CHR ''/'' (path parsed) @ ''/page/'' @ str_int next_page;
                   new_url = (if query \<noteq> [] then new_url @ ''?'' @ urlencode query else new_url);
                   new_url = (if fragment parsed \<noteq> [] then new_url @ ''#'' @ fragment parsed else new_url)
               in Some new_url)"


section \<open>Crawl orchestrator (scrape\_nsa2.py: scrape\_year)\<close>

text \<open>
  The state of a year's crawl: the connection, the list \<^verbatim>\<open>all_pdfs\<close> (an entry with its
  PDF link and the year), and the calls of \<^verbatim>\<open>insert_into_db\<close> made so far, which are not a
  variable of the program: they record the calls, and their number selects the fault of
  the next call.
\<close>

record crawl =
  db :: conn
  all_pdfs :: "(item \<times> string \<times> int) list"
  upserts :: "upsert_call list"

text \<open>The \<^verbatim>\<open>for item in items\<close> loop. \<open>Inl\<close> is an exception that leaves the loop.\<close>

fun item_loop :: "env \<Rightarrow> int \<Rightarrow> item list \<Rightarrow> crawl \<Rightarrow> py_exc + crawl" where
  "item_loop w year [] st = Inr st"
| "item_loop w year (it # items) st =
     (case get_direct_pdf_url w (detail_url it) of
        Inl e \<Rightarrow> Inl e
      | Inr pdf \<Rightarrow>
          if truthy pdf then
            (case insert_into_db (db_faults w (length (upserts st))) (db st)
                    (detail_url it) (doc_date it) (the pdf) year of
               Inl e \<Rightarrow> Inl e
             | Inr (c, printed) \<Rightarrow>
                 item_loop w year items
                   (st\<lparr>db := c,
                       all_pdfs := all_pdfs st @ [(it, the pdf, year)],
                       upserts := upserts st @ [(detail_url it, doc_date it, the pdf, year)]\<rparr>))
          else item_loop w year items st)"

text \<open>\<^verbatim>\<open>f"{base_url}/page/{page}?document_date={year}#listings"\<close>\<close>

definition listing_url :: "string \<Rightarrow> int \<Rightarrow> nat \<Rightarrow> string" where
  "listing_url base_url year page =
     base_url @ ''/page/'' @ str_nat page @ ''?document_date='' @ str_int year @ ''#listings''"













definition resolved :: "env \<Rightarrow> item list \<Rightarrow> (item \<times> string) list" where
  "resolved w items =
     concat (map (\<lambda>it. case get_direct_pdf_url w (detail_url it) of
                          Inr (Some p) \<Rightarrow> if p \<noteq> [] then [(it, p)] else []
                        | Inr None \<Rightarrow> []
                        | Inl e \<Rightarrow> []) items)"





section \<open>Download stage (download\_scrape\_nsa2.py)\<close>












text \<open>
  The loop of \<^verbatim>\<open>main\<close> over the rows. The state holds the paths that exist, the counter
  \<^verbatim>\<open>completed\<close> and, as a record of what the loop did, one line per row: the row identifier,
  the destination and what happened.
\<close>

datatype action = Skipped | Transferred | Transfer_Failed py_exc

record dl_state =
  files :: "string list"
  completed :: nat
  done_log :: "(nat \<times> string \<times> action) list"






section \<open>Concrete pages, stores and environments\<close>

text \<open>
  A stand-in for \<^verbatim>\<open>urljoin\<close> on the two shapes of link the pages below use: a path that
  starts with a slash is put behind the base, any other link is taken as it is.
\<close>

definition urljoin_demo :: "string \<Rightarrow> string \<Rightarrow> string" where
  "urljoin_demo base u = (if startswith u ''/'' then base @ u else u)"

text \<open>
  A listing page with three cards (a full one, one with no title and no date, one with no
  link) and page numbers that mark page 1 as the current one and have no \<^verbatim>\<open>next\<close> link.
\<close>

definition listing_page :: node where
  "listing_page =
     Tag ''html'' [] []
       [Tag ''a'' [''document-listing-card''] [(''href'', ''/documents/one'')]
          [Tag ''div'' [''is-size-4''] [] [NavigableString '' First memo ''],
           Tag ''span'' [] [] [NavigableString ''Document Date: May 1, 2013 '']],
        Tag ''a'' [''document-listing-card''] [(''href'', ''/documents/two'')] [],
        Tag ''a'' [''document-listing-card''] [] [NavigableString ''no link''],
        Tag ''span'' [''page-numbers'', ''current''] [] [NavigableString ''1''],
        Tag ''a'' [''page-numbers''] [(''href'', ''/foia-collections/nsa-documents-search/page/2'')]
          [NavigableString ''2'']]"

text \<open>A listing page with no cards, and one with a card and no page numbers.\<close>

definition empty_page :: node where
  "empty_page = Tag ''html'' [] [] [Tag ''p'' [] [] [NavigableString ''No documents'']]"

definition last_page :: node where
  "last_page =
     Tag ''html'' [] []
       [Tag ''a'' [''document-listing-card''] [(''href'', ''/documents/none'')]
          [Tag ''div'' [''is-size-4''] [] [NavigableString ''Withheld'']]]"

text \<open>Detail pages: a download anchor, a text anchor, no anchor, and a download anchor without a link before a text anchor with one.\<close>

definition detail_one :: node where
  "detail_one = Tag ''html'' [] [] [Tag ''a'' [] [(''download'', ''''), (''href'', ''/files/one.pdf'')] [NavigableString ''PDF'']]"

definition detail_two :: node where
  "detail_two = Tag ''html'' [] [] [Tag ''a'' [] [(''href'', ''/files/two.pdf'')] [NavigableString ''Download document'']]"

definition detail_none :: node where
  "detail_none = Tag ''html'' [] [] [Tag ''a'' [] [(''href'', ''/about'')] [NavigableString ''About'']]"

definition detail_mixed :: node where
  "detail_mixed =
     Tag ''html'' [] []
       [Tag ''a'' [] [(''download'', '''')] [NavigableString ''PDF''],
        Tag ''a'' [] [(''href'', ''/files/three.pdf'')] [NavigableString ''Download document'']]"

definition site_demo :: "string \<Rightarrow> http_result" where
  "site_demo url =
     (if url = ''https://www.aclu.org/documents/one'' then Response 200 detail_one
      else if url = ''https://www.aclu.org/documents/two'' then Response 200 detail_two
      else if url = ''https://www.aclu.org/documents/none'' then Response 200 detail_none
      else if url = ''https://www.aclu.org/documents/mixed'' then Response 200 detail_mixed
      else if url = ''https://www.aclu.org/documents/gone'' then Response 404 detail_one
      else if url = ''https://www.aclu.org/foia-collections/nsa-documents-search/page/1?document_date=2013#listings''
        then Response 200 listing_page
      else if url = ''https://www.aclu.org/foia-collections/nsa-documents-search/page/2?document_date=2013#listings''
        then Response 200 empty_page
      else if url = ''https://www.aclu.org/foia-collections/nsa-documents-search/page/1?document_date=2014#listings''
        then Response 200 last_page
      else Raises RequestError)"

definition env_demo :: env where
  "env_demo = \<lparr>urljoin = urljoin_demo, http_get = site_demo, db_faults = (\<lambda>n. NoFault)\<rparr>"

text \<open>The same site with a store whose first write fails.\<close>

definition env_fail :: env where
  "env_fail = \<lparr>urljoin = urljoin_demo, http_get = site_demo,
                 db_faults = (\<lambda>n. if n = 0 then InsertFails else NoFault)\<rparr>"

definition search_url :: string where
  "search_url = ''https://www.aclu.org/foia-collections/nsa-documents-search''"

text \<open>Three parsed entries of the site above: two with a PDF behind the detail page, one without.\<close>

definition item_one :: item where
  "item_one = \<lparr>detail_url = ''https://www.aclu.org/documents/one'', title = ''First memo'',
               doc_date = ''May 1, 2013''\<rparr>"

definition item_none :: item where
  "item_none = \<lparr>detail_url = ''https://www.aclu.org/documents/none'', title = ''Withheld'',
                doc_date = ''Unknown Date''\<rparr>"

definition item_two :: item where
  "item_two = \<lparr>detail_url = ''https://www.aclu.org/documents/two'', title = ''Unknown Title'',
               doc_date = ''Unknown Date''\<rparr>"

definition crawl_start :: crawl where
  "crawl_start = \<lparr>db = init_db, all_pdfs = [], upserts = []\<rparr>"





section \<open>Theorems about the record store\<close>

lemma rows_for_insert_same:
  "map payload (rows_for k (insert_or_replace t k d p dup y)) = [(Some d, Some p, Some y, Some dup)]"
  by (simp add: rows_for_def insert_or_replace_def payload_def)

lemma rows_for_insert_other:
  "k' \<noteq> k \<Longrightarrow> rows_for k (insert_or_replace t k' d p dup y) = rows_for k t"
proof -
  assume ne: "k' \<noteq> k"
  have "filter (\<lambda>r. Page r = k) (filter (\<lambda>r. Page r \<noteq> k') t) = filter (\<lambda>r. Page r = k) t"
    using ne by (induction t) auto
  with ne show ?thesis
    by (simp add: rows_for_def insert_or_replace_def)
qed

lemma insert_into_db_NoFault:
  "insert_into_db NoFault c k d p y =
     Inr (\<lparr>tbl = insert_or_replace (tbl c) k d p (if select_page (tbl c) k then ''Yes'' else ''No'') y,
           durable = insert_or_replace (tbl c) k d p (if select_page (tbl c) k then ''Yes'' else ''No'') y\<rparr>,
          Saved y (if select_page (tbl c) k then ''Yes'' else ''No''))"
  by (simp add: insert_into_db_def insert_try_def Let_def)

lemma run_upserts_snoc:
  "run_upserts c (cs @ [(k, d, p, y)]) =
     (let c' = run_upserts c cs;
          dup = (if select_page (tbl c') k then ''Yes'' else ''No'')
      in \<lparr>tbl = insert_or_replace (tbl c') k d p dup y,
          durable = insert_or_replace (tbl c') k d p dup y\<rparr>)"
proof (induction cs arbitrary: c)
  case Nil
  show ?case by (simp add: insert_into_db_NoFault Let_def)
next
  case (Cons x xs)
  obtain k' d' p' y' where x: "x = (k', d', p', y')" by (cases x) auto
  show ?case using Cons.IH by (simp add: x insert_into_db_NoFault)
qed

lemma run_upserts_rows:
  "map payload (rows_for k (tbl (run_upserts c cs))) =
     (case rev (filter (\<lambda>x. fst x = k) cs) of
        [] \<Rightarrow> map payload (rows_for k (tbl c))
      | (k', d, p, y) # pre \<Rightarrow>
          [(Some d, Some p, Some y,
            Some (if pre = [] \<and> \<not> select_page (tbl c) k then ''No'' else ''Yes''))])"
proof (induction cs rule: rev_induct)
  case Nil
  show ?case by simp
next
  case (snoc x xs)
  obtain k' d' p' y' where x: "x = (k', d', p', y')" by (cases x) auto
  show ?case
  proof (cases "k' = k")
    case False
    then show ?thesis
      using snoc.IH by (simp add: x run_upserts_snoc Let_def rows_for_insert_other)
  next
    case True
    have sel: "select_page (tbl (run_upserts c xs)) k \<longleftrightarrow>
                 \<not> (filter (\<lambda>x. fst x = k) xs = [] \<and> \<not> select_page (tbl c) k)"
    proof -
      have "select_page (tbl (run_upserts c xs)) k \<longleftrightarrow>
              map payload (rows_for k (tbl (run_upserts c xs))) \<noteq> []"
        by (simp add: select_page_def rows_for_def)
      also have "\<dots> \<longleftrightarrow> \<not> (filter (\<lambda>x. fst x = k) xs = [] \<and> \<not> select_page (tbl c) k)"
        unfolding snoc.IH
        by (auto simp: select_page_def rows_for_def split: list.splits)
      finally show ?thesis .
    qed
    show ?thesis
      using True sel by (simp add: x run_upserts_snoc Let_def rows_for_insert_same)
  qed
qed

text \<open>
  C1. Take a key that has no row in the store and any sequence of upsert calls that
  succeed. If the calls for that key are \<open>pre\<close> followed by a last call with the values
  \<open>d\<close>, \<open>p\<close>, \<open>y\<close>, the store holds exactly one row for the key afterwards, its
  Document\_Date, DirectPDF\_Link and Year\_From\_URL are those of the last call, and its
  Duplicate is \<open>No\<close> when that call is the first one for the key and \<open>Yes\<close> after every
  later one, whatever the values are. The committed rows are the rows of the connection.
\<close>

theorem upsert_one_row_last_write_wins:
  assumes "\<not> select_page (tbl c) k"
    and "filter (\<lambda>x. fst x = k) cs = pre @ [(k, d, p, y)]"
  shows "map payload (rows_for k (tbl (run_upserts c cs))) =
           [(Some d, Some p, Some y, Some (if pre = [] then ''No'' else ''Yes''))]
         \<and> length (rows_for k (tbl (run_upserts c cs))) = 1
         \<and> durable (run_upserts c cs) = tbl (run_upserts c cs)"
proof -
  have rows: "map payload (rows_for k (tbl (run_upserts c cs))) =
           [(Some d, Some p, Some y, Some (if pre = [] then ''No'' else ''Yes''))]"
    unfolding run_upserts_rows using assms by simp
  then have "length (map payload (rows_for k (tbl (run_upserts c cs)))) = 1"
    by simp
  then have one: "length (rows_for k (tbl (run_upserts c cs))) = 1"
    by simp
  have "cs \<noteq> []" using assms(2) by auto
  then obtain xs x where "cs = xs @ [x]" by (cases cs rule: rev_cases) auto
  moreover obtain k' d' p' y' where "x = (k', d', p', y')" by (cases x) auto
  ultimately have "durable (run_upserts c cs) = tbl (run_upserts c cs)"
    by (simp add: run_upserts_snoc Let_def)
  with rows one show ?thesis by simp
qed

theorem upsert_one_row_last_write_wins_witness:
  "map payload (rows_for ''u'' (tbl (run_upserts init_db [(''u'', ''d1'', ''p1'', 2013)]))) =
     [(Some ''d1'', Some ''p1'', Some 2013, Some ''No'')]
   \<and> map payload (rows_for ''u'' (tbl (run_upserts init_db
        [(''u'', ''d1'', ''p1'', 2013), (''v'', ''d'', ''p'', 2013), (''u'', ''d1'', ''p1'', 2014)]))) =
     [(Some ''d1'', Some ''p1'', Some 2014, Some ''Yes'')]"
proof -
  have a: "\<not> select_page (tbl init_db) ''u''"
    by (simp add: select_page_def init_db_def)
  have b: "filter (\<lambda>x. fst x = ''u'') [(''u'', ''d1'', ''p1'', 2013::int)] =
             [] @ [(''u'', ''d1'', ''p1'', 2013)]"
    by simp
  have c: "filter (\<lambda>x. fst x = ''u'')
             [(''u'', ''d1'', ''p1'', 2013::int), (''v'', ''d'', ''p'', 2013), (''u'', ''d1'', ''p1'', 2014)] =
             [(''u'', ''d1'', ''p1'', 2013)] @ [(''u'', ''d1'', ''p1'', 2014)]"
    by simp
  show ?thesis
    using upsert_one_row_last_write_wins [OF a b] upsert_one_row_last_write_wins [OF a c]
    by simp
qed


section \<open>Theorems about the listing parser\<close>









section \<open>Theorems about the detail resolver\<close>





section \<open>Theorems about the year of a path\<close>

























section \<open>Theorems about the crawl\<close>

lemma pdf_never_raises: "\<exists>r. get_direct_pdf_url w url = Inr r"
  by (simp add: get_direct_pdf_url_def split: sum.splits)

lemma insert_never_raises: "\<exists>c' printed. insert_into_db f c k d p y = Inr (c', printed)"
  by (simp add: insert_into_db_def split: prod.splits sum.splits)

lemma resolved_Cons:
  "resolved w (it # items) =
     (case get_direct_pdf_url w (detail_url it) of
        Inr (Some p) \<Rightarrow> if p \<noteq> [] then [(it, p)] else []
      | Inr None \<Rightarrow> []
      | Inl e \<Rightarrow> []) @ resolved w items"
  by (simp add: resolved_def)

lemma item_loop_saved:
  "\<exists>st'. item_loop w year items st = Inr st' \<and>
     all_pdfs st' = all_pdfs st @ map (\<lambda>(it, p). (it, p, year)) (resolved w items) \<and>
     upserts st' = upserts st @
       map (\<lambda>(it, p). (detail_url it, doc_date it, p, year)) (resolved w items)"
proof (induction items arbitrary: st)
  case Nil
  show ?case by (simp add: resolved_def)
next
  case (Cons it items)
  obtain pdf where pdf: "get_direct_pdf_url w (detail_url it) = Inr pdf"
    using pdf_never_raises by blast
  show ?case
  proof (cases "truthy pdf")
    case False
    then have "resolved w (it # items) = resolved w items"
      using pdf by (simp add: resolved_Cons truthy_def split: option.splits)
    with False pdf Cons.IH [of st] show ?thesis by simp
  next
    case True
    then obtain p where p: "pdf = Some p" "p \<noteq> []"
      by (auto simp: truthy_def split: option.splits)
    obtain c' printed where ins:
      "insert_into_db (db_faults w (length (upserts st))) (db st) (detail_url it) (doc_date it) p year
         = Inr (c', printed)"
      using insert_never_raises by blast
    let ?st = "st\<lparr>db := c', all_pdfs := all_pdfs st @ [(it, p, year)],
                   upserts := upserts st @ [(detail_url it, doc_date it, p, year)]\<rparr>"
    have r: "resolved w (it # items) = (it, p) # resolved w items"
      using pdf p by (simp add: resolved_Cons)
    have "item_loop w year (it # items) st = item_loop w year items ?st"
      using pdf p True ins by simp
    with Cons.IH [of ?st] r show ?thesis by auto
  qed
qed









lemma pdf_some_nonempty:
  assumes "\<forall>h. h \<noteq> [] \<longrightarrow> urljoin w ACLU h \<noteq> []"
    and "get_direct_pdf_url w url = Inr (Some p)"
  shows "p \<noteq> []"
  using assms
  by (auto simp: get_direct_pdf_url_def pdf_try_def truthy_def
           split: http_result.splits if_splits option.splits sum.splits)

lemma concat_map_map: "map f (concat (map g xs)) = concat (map (\<lambda>x. map f (g x)) xs)"
  by (induction xs) simp_all

text \<open>
  C5. Let \<^verbatim>\<open>urljoin\<close> return a non-empty URL for a non-empty link, as the library does
  for the site's base. For an entry whose detail resolution returns \<open>None\<close> the loop goes
  on with the state unchanged: no upsert, nothing saved. For an entry whose resolution
  returns a PDF link it calls the upsert once, with the entry's detail URL, its date, the
  PDF link and the crawl year, and appends the entry to the saved list. Over a page, the
  upsert calls and the saved entries are those of the entries with a PDF link, in order.
\<close>

theorem upsert_per_resolved_entry:
  assumes "\<forall>h. h \<noteq> [] \<longrightarrow> urljoin w ACLU h \<noteq> []"
  shows "(get_direct_pdf_url w (detail_url it) = Inr None \<longrightarrow>
            item_loop w y (it # items) st = item_loop w y items st)
     \<and> (\<forall>p. get_direct_pdf_url w (detail_url it) = Inr (Some p) \<longrightarrow>
          (\<exists>c' printed.
             insert_into_db (db_faults w (length (upserts st))) (db st)
               (detail_url it) (doc_date it) p y = Inr (c', printed) \<and>
             item_loop w y (it # items) st =
               item_loop w y items
                 (st\<lparr>db := c', all_pdfs := all_pdfs st @ [(it, p, y)],
                     upserts := upserts st @ [(detail_url it, doc_date it, p, y)]\<rparr>)))
     \<and> (\<exists>st'. item_loop w y items st = Inr st' \<and>
          upserts st' = upserts st @
            concat (map (\<lambda>it. case get_direct_pdf_url w (detail_url it) of
                                 Inr (Some p) \<Rightarrow> [(detail_url it, doc_date it, p, y)]
                               | Inr None \<Rightarrow> [] | Inl e \<Rightarrow> []) items) \<and>
          all_pdfs st' = all_pdfs st @
            concat (map (\<lambda>it. case get_direct_pdf_url w (detail_url it) of
                                 Inr (Some p) \<Rightarrow> [(it, p, y)]
                               | Inr None \<Rightarrow> [] | Inl e \<Rightarrow> []) items))"
proof -
  have 1: "item_loop w y (it # items) st = item_loop w y items st"
    if "get_direct_pdf_url w (detail_url it) = Inr None"
    using that by (simp add: truthy_def)
  have 2: "\<exists>c' printed.
             insert_into_db (db_faults w (length (upserts st))) (db st)
               (detail_url it) (doc_date it) p y = Inr (c', printed) \<and>
             item_loop w y (it # items) st =
               item_loop w y items
                 (st\<lparr>db := c', all_pdfs := all_pdfs st @ [(it, p, y)],
                     upserts := upserts st @ [(detail_url it, doc_date it, p, y)]\<rparr>)"
    if r: "get_direct_pdf_url w (detail_url it) = Inr (Some p)" for p
  proof -
    have ne: "p \<noteq> []" using pdf_some_nonempty [OF assms r] .
    obtain c' printed where ins:
      "insert_into_db (db_faults w (length (upserts st))) (db st) (detail_url it) (doc_date it) p y
         = Inr (c', printed)"
      using insert_never_raises by blast
    with r ne show ?thesis by (simp add: truthy_def)
  qed
  have res: "resolved w items =
               concat (map (\<lambda>it. case get_direct_pdf_url w (detail_url it) of
                                    Inr (Some p) \<Rightarrow> [(it, p)] | Inr None \<Rightarrow> [] | Inl e \<Rightarrow> []) items)"
    unfolding resolved_def
    by (rule arg_cong [where f = concat], rule map_cong)
       (auto split: sum.splits option.splits dest: pdf_some_nonempty [OF assms])
  have m1: "map (\<lambda>(it, p). (detail_url it, doc_date it, p, y)) (resolved w items) =
              concat (map (\<lambda>it. case get_direct_pdf_url w (detail_url it) of
                                 Inr (Some p) \<Rightarrow> [(detail_url it, doc_date it, p, y)]
                               | Inr None \<Rightarrow> [] | Inl e \<Rightarrow> []) items)"
    unfolding res concat_map_map
    by (rule arg_cong [where f = concat], rule map_cong) (auto split: sum.splits option.splits)
  have m2: "map (\<lambda>(it, p). (it, p, y)) (resolved w items) =
              concat (map (\<lambda>it. case get_direct_pdf_url w (detail_url it) of
                                 Inr (Some p) \<Rightarrow> [(it, p, y)]
                               | Inr None \<Rightarrow> [] | Inl e \<Rightarrow> []) items)"
    unfolding res concat_map_map
    by (rule arg_cong [where f = concat], rule map_cong) (auto split: sum.splits option.splits)
  from item_loop_saved [of w y items st] have 3:
    "\<exists>st'. item_loop w y items st = Inr st' \<and>
          upserts st' = upserts st @
            concat (map (\<lambda>it. case get_direct_pdf_url w (detail_url it) of
                                 Inr (Some p) \<Rightarrow> [(detail_url it, doc_date it, p, y)]
                               | Inr None \<Rightarrow> [] | Inl e \<Rightarrow> []) items) \<and>
          all_pdfs st' = all_pdfs st @
            concat (map (\<lambda>it. case get_direct_pdf_url w (detail_url it) of
                                 Inr (Some p) \<Rightarrow> [(it, p, y)]
                               | Inr None \<Rightarrow> [] | Inl e \<Rightarrow> []) items)"
    unfolding m1 m2 by blast
  from 1 2 3 show ?thesis by blast
qed
theorem upsert_per_resolved_entry_witness:
  "item_loop env_demo 2013 [item_none] crawl_start = Inr crawl_start
   \<and> upserts (projr (item_loop env_demo 2013 [item_one, item_none, item_two] crawl_start)) =
       [(''https://www.aclu.org/documents/one'', ''May 1, 2013'', ''https://www.aclu.org/files/one.pdf'', 2013),
        (''https://www.aclu.org/documents/two'', ''Unknown Date'', ''https://www.aclu.org/files/two.pdf'', 2013)]
   \<and> all_pdfs (projr (item_loop env_demo 2013 [item_one, item_none, item_two] crawl_start)) =
       [(item_one, ''https://www.aclu.org/files/one.pdf'', 2013),
        (item_two, ''https://www.aclu.org/files/two.pdf'', 2013)]"
proof -
  have ne: "\<forall>h. h \<noteq> [] \<longrightarrow> urljoin env_demo ACLU h \<noteq> []"
    by (simp add: env_demo_def urljoin_demo_def ACLU_def)
  have n: "get_direct_pdf_url env_demo (detail_url item_none) = Inr None"
    by code_simp
  have u: "upserts crawl_start @
            concat (map (\<lambda>it. case get_direct_pdf_url env_demo (detail_url it) of
                                 Inr (Some p) \<Rightarrow> [(detail_url it, doc_date it, p, 2013)]
                               | Inr None \<Rightarrow> [] | Inl e \<Rightarrow> []) [item_one, item_none, item_two]) =
       [(''https://www.aclu.org/documents/one'', ''May 1, 2013'', ''https://www.aclu.org/files/one.pdf'', 2013::int),
        (''https://www.aclu.org/documents/two'', ''Unknown Date'', ''https://www.aclu.org/files/two.pdf'', 2013)]"
    by code_simp
  have a: "all_pdfs crawl_start @
            concat (map (\<lambda>it. case get_direct_pdf_url env_demo (detail_url it) of
                                 Inr (Some p) \<Rightarrow> [(it, p, 2013)]
                               | Inr None \<Rightarrow> [] | Inl e \<Rightarrow> []) [item_one, item_none, item_two]) =
       [(item_one, ''https://www.aclu.org/files/one.pdf'', 2013::int),
        (item_two, ''https://www.aclu.org/files/two.pdf'', 2013)]"
    by code_simp
  note t0 = upsert_per_resolved_entry [OF ne, of item_none 2013 "[]" crawl_start]
  note t1 = upsert_per_resolved_entry [OF ne, of _ 2013 "[item_one, item_none, item_two]" crawl_start]
  from t0 n have r0: "item_loop env_demo 2013 [item_none] crawl_start = Inr crawl_start"
    by simp
  from t1 [THEN conjunct2, THEN conjunct2] obtain st' where
    "item_loop env_demo 2013 [item_one, item_none, item_two] crawl_start = Inr st'"
    "upserts st' = [(''https://www.aclu.org/documents/one'', ''May 1, 2013'', ''https://www.aclu.org/files/one.pdf'', 2013),
        (''https://www.aclu.org/documents/two'', ''Unknown Date'', ''https://www.aclu.org/files/two.pdf'', 2013)]"
    "all_pdfs st' = [(item_one, ''https://www.aclu.org/files/one.pdf'', 2013),
        (item_two, ''https://www.aclu.org/files/two.pdf'', 2013)]"
    unfolding u a by blast
  then have r1: "upserts (projr (item_loop env_demo 2013 [item_one, item_none, item_two] crawl_start)) =
       [(''https://www.aclu.org/documents/one'', ''May 1, 2013'', ''https://www.aclu.org/files/one.pdf'', 2013),
        (''https://www.aclu.org/documents/two'', ''Unknown Date'', ''https://www.aclu.org/files/two.pdf'', 2013)]"
    and r2: "all_pdfs (projr (item_loop env_demo 2013 [item_one, item_none, item_two] crawl_start)) =
       [(item_one, ''https://www.aclu.org/files/one.pdf'', 2013),
        (item_two, ''https://www.aclu.org/files/two.pdf'', 2013)]"
    by simp_all
  from r0 r1 r2 show ?thesis by (intro conjI)
qed

section \<open>Theorems about failures of the store\<close>

lemma insert_fault:
  assumes "f \<noteq> NoFault"
  shows "\<exists>c'. insert_into_db f c k d p y = Inr (c', Insert_Failed SqliteError) \<and>
           durable c' = durable c \<and>
           (\<forall>k'. k' \<noteq> k \<longrightarrow> rows_for k' (tbl c') = rows_for k' (tbl c))"
  using assms
  by (cases f) (simp_all add: insert_into_db_def insert_try_def Let_def rows_for_insert_other)

text \<open>
  C9. When a statement of an upsert call fails, the exception is caught inside
  \<^verbatim>\<open>insert_into_db\<close>: the call returns normally after printing the failure, the committed
  rows are the ones before the call, and the rows of every other key are unchanged. In
  the crawl, the loop over the entries of the page goes on with the next entry, and the
  loop over the page ends without an exception.
\<close>

theorem store_failure_is_contained:
  "(f \<noteq> NoFault \<longrightarrow>
      (\<exists>c'. insert_into_db f c k d p y = Inr (c', Insert_Failed SqliteError) \<and>
            durable c' = durable c \<and>
            (\<forall>k'. k' \<noteq> k \<longrightarrow> rows_for k' (tbl c') = rows_for k' (tbl c))))
   \<and> (db_faults w (length (upserts st)) \<noteq> NoFault \<and>
       get_direct_pdf_url w (detail_url it) = Inr (Some q) \<and> q \<noteq> [] \<longrightarrow>
      (\<exists>c'. insert_into_db (db_faults w (length (upserts st))) (db st)
               (detail_url it) (doc_date it) q yr = Inr (c', Insert_Failed SqliteError) \<and>
            durable c' = durable (db st) \<and>
            (\<forall>k'. k' \<noteq> detail_url it \<longrightarrow> rows_for k' (tbl c') = rows_for k' (tbl (db st))) \<and>
            item_loop w yr (it # items) st =
              item_loop w yr items
                (st\<lparr>db := c', all_pdfs := all_pdfs st @ [(it, q, yr)],
                    upserts := upserts st @ [(detail_url it, doc_date it, q, yr)]\<rparr>)) \<and>
      (\<exists>st'. item_loop w yr (it # items) st = Inr st'))"
proof -
  have 2: "(\<exists>c'. insert_into_db (db_faults w (length (upserts st))) (db st)
               (detail_url it) (doc_date it) q yr = Inr (c', Insert_Failed SqliteError) \<and>
            durable c' = durable (db st) \<and>
            (\<forall>k'. k' \<noteq> detail_url it \<longrightarrow> rows_for k' (tbl c') = rows_for k' (tbl (db st))) \<and>
            item_loop w yr (it # items) st =
              item_loop w yr items
                (st\<lparr>db := c', all_pdfs := all_pdfs st @ [(it, q, yr)],
                    upserts := upserts st @ [(detail_url it, doc_date it, q, yr)]\<rparr>)) \<and>
      (\<exists>st'. item_loop w yr (it # items) st = Inr st')"
    if h: "db_faults w (length (upserts st)) \<noteq> NoFault \<and>
       get_direct_pdf_url w (detail_url it) = Inr (Some q) \<and> q \<noteq> []"
  proof -
    from h insert_fault [of "db_faults w (length (upserts st))" "db st" "detail_url it" "doc_date it" q yr]
    obtain c' where c: "insert_into_db (db_faults w (length (upserts st))) (db st)
               (detail_url it) (doc_date it) q yr = Inr (c', Insert_Failed SqliteError)"
      "durable c' = durable (db st)"
      "\<forall>k'. k' \<noteq> detail_url it \<longrightarrow> rows_for k' (tbl c') = rows_for k' (tbl (db st))"
      by blast
    have "item_loop w yr (it # items) st =
              item_loop w yr items
                (st\<lparr>db := c', all_pdfs := all_pdfs st @ [(it, q, yr)],
                    upserts := upserts st @ [(detail_url it, doc_date it, q, yr)]\<rparr>)"
      using h c(1) by (simp add: truthy_def)
    moreover have "\<exists>st'. item_loop w yr (it # items) st = Inr st'"
      using item_loop_saved [of w yr "it # items" st] by blast
    ultimately show ?thesis using c by blast
  qed
  from insert_fault [of f c k d p y] 2 show ?thesis by blast
qed

theorem store_failure_is_contained_witness:
  "insert_into_db InsertFails (run_upserts init_db [(''v'', ''d'', ''p'', 2013)]) ''u'' ''d1'' ''p1'' 2014 =
     Inr (run_upserts init_db [(''v'', ''d'', ''p'', 2013)], Insert_Failed SqliteError)
   \<and> item_loop env_fail 2013 [item_one, item_two] crawl_start =
       item_loop env_fail 2013 [item_two]
         \<lparr>db = init_db, all_pdfs = [(item_one, ''https://www.aclu.org/files/one.pdf'', 2013)],
          upserts = [(''https://www.aclu.org/documents/one'', ''May 1, 2013'',
                      ''https://www.aclu.org/files/one.pdf'', 2013)]\<rparr>"
proof -
  have f: "InsertFails \<noteq> NoFault" by simp
  from store_failure_is_contained [of InsertFails "run_upserts init_db [(''v'', ''d'', ''p'', 2013)]" "''u''"
      "''d1''" "''p1''" 2014, THEN conjunct1] f
  obtain c' where c: "insert_into_db InsertFails (run_upserts init_db [(''v'', ''d'', ''p'', 2013)]) ''u'' ''d1'' ''p1'' 2014 =
     Inr (c', Insert_Failed SqliteError)" by blast
  have "c' = run_upserts init_db [(''v'', ''d'', ''p'', 2013)]"
    using c by (simp add: insert_into_db_def insert_try_def Let_def)
  with c have r1: "insert_into_db InsertFails (run_upserts init_db [(''v'', ''d'', ''p'', 2013)]) ''u'' ''d1'' ''p1'' 2014 =
     Inr (run_upserts init_db [(''v'', ''d'', ''p'', 2013)], Insert_Failed SqliteError)" by simp
  have h: "db_faults env_fail (length (upserts crawl_start)) \<noteq> NoFault \<and>
       get_direct_pdf_url env_fail (detail_url item_one) = Inr (Some ''https://www.aclu.org/files/one.pdf'') \<and>
       ''https://www.aclu.org/files/one.pdf'' \<noteq> []"
    by code_simp
  from store_failure_is_contained [of _ _ _ _ _ _ env_fail crawl_start item_one
      "''https://www.aclu.org/files/one.pdf''" 2013 "[item_two]", THEN conjunct2] h
  obtain c2 where c2: "insert_into_db (db_faults env_fail (length (upserts crawl_start))) (db crawl_start)
               (detail_url item_one) (doc_date item_one) ''https://www.aclu.org/files/one.pdf'' 2013 =
               Inr (c2, Insert_Failed SqliteError)"
      "item_loop env_fail 2013 [item_one, item_two] crawl_start =
              item_loop env_fail 2013 [item_two]
                (crawl_start\<lparr>db := c2, all_pdfs := all_pdfs crawl_start @ [(item_one, ''https://www.aclu.org/files/one.pdf'', 2013)],
                    upserts := upserts crawl_start @ [(detail_url item_one, doc_date item_one, ''https://www.aclu.org/files/one.pdf'', 2013)]\<rparr>)"
    by blast
  have "insert_into_db (db_faults env_fail (length (upserts crawl_start))) (db crawl_start)
               (detail_url item_one) (doc_date item_one) ''https://www.aclu.org/files/one.pdf'' 2013 =
               Inr (init_db, Insert_Failed SqliteError)"
    by code_simp
  with c2(1) have "c2 = init_db" by simp
  with c2(2) have r2: "item_loop env_fail 2013 [item_one, item_two] crawl_start =
       item_loop env_fail 2013 [item_two]
         \<lparr>db = init_db, all_pdfs = [(item_one, ''https://www.aclu.org/files/one.pdf'', 2013)],
          upserts = [(''https://www.aclu.org/documents/one'', ''May 1, 2013'',
                      ''https://www.aclu.org/files/one.pdf'', 2013)]\<rparr>"
    by (simp add: crawl_start_def item_one_def)
  from r1 r2 show ?thesis by (intro conjI)
qed


section \<open>Theorems about the saved count\<close>






section \<open>The pagination fallback on the crawl's own URLs\<close>

text \<open>
  C2. The crawl asks for the next page with the URL of the current listing page, whose
  path ends in \<open>/page/1\<close>. The page below has no \<^verbatim>\<open>next\<close> link and marks page 1 as current,
  so the fallback is taken: it keeps the segment \<open>/page/1\<close> and appends \<open>/page/2\<close> to it.
  The number of the segment is not incremented.
\<close>

theorem pagination_fallback_appends_segment:
  "get_next_page_url env_demo listing_page
     ''https://www.aclu.org/foia-collections/nsa-documents-search/page/1?document_date=2013#listings'' =
   Some ''https://www.aclu.org/foia-collections/nsa-documents-search/page/1/page/2?document_date=2013#listings''
   \<and> listing_url search_url 2013 1 =
       ''https://www.aclu.org/foia-collections/nsa-documents-search/page/1?document_date=2013#listings''
   \<and> find_class listing_page ''nav'' ''page-numbers'' = None
   \<and> page_number_loop (select_class listing_page [''a'', ''span''] ''page-numbers'') None = Some 1"
  by code_simp


section \<open>Theorems about the download stage\<close>










end
